theory Spec2Isabelle
  imports Main "HOL-Library.Multiset"
begin

section \<open>Text primitives of the runtime\<close>

text \<open>
  Characters and bytes are \<open>char\<close>. The Line Counter prints ASCII text only (two
  literals and the digits of two integers), which every encoding of standard output
  has; its output is a \<open>string\<close> and \<open>print\<close> appends a line feed to the text of its
  argument. The Database Dumper prints text from the database; its output is modelled
  in its own section, with a \<^verbatim>\<open>print\<close> that can raise.
\<close>

definition LF :: char where
  "LF = CHR 0x0A"

definition CR :: char where
  "CR = CHR 0x0D"

definition TAB :: char where
  "TAB = CHR 0x09"

definition SQ :: char where
  "SQ = CHR 0x27"

definition DQ :: char where
  "DQ = CHR 0x22"

definition BSL :: char where
  "BSL = CHR 0x5C"

definition print :: "string \<Rightarrow> string" where
  "print s = s @ [LF]"

definition digit_char :: "nat \<Rightarrow> char" where
  "digit_char d = ''0123456789'' ! d"

fun str_nat :: "nat \<Rightarrow> string" where
  "str_nat n = (if n < 10 then [digit_char n] else str_nat (n div 10) @ [digit_char (n mod 10)])"

declare str_nat.simps [simp del]

text \<open>\<^verbatim>\<open>str\<close> of a Python integer (unbounded): decimal digits, a minus sign when negative.\<close>

definition str_int :: "int \<Rightarrow> string" where
  "str_int i = (if i < 0 then CHR ''-'' # str_nat (nat (- i)) else str_nat (nat i))"

definition hex_digit :: "nat \<Rightarrow> char" where
  "hex_digit d = ''0123456789abcdef'' ! d"

definition hex_escape :: "char \<Rightarrow> string" where
  "hex_escape c = [BSL, CHR ''x'', hex_digit (of_char c div 16), hex_digit (of_char c mod 16)]"

text \<open>
  \<^verbatim>\<open>repr\<close> of a \<^verbatim>\<open>bytes\<close> value. The quote is a single quote unless the bytes hold
  a single quote and no double quote. Backslash and the quote are escaped, tab, line
  feed and carriage return have their letters, and every byte below 32 or from 127 on
  is written \<^verbatim>\<open>\xhh\<close>.
\<close>

definition repr_quote :: "string \<Rightarrow> char" where
  "repr_quote s = (if SQ \<in> set s \<and> DQ \<notin> set s then DQ else SQ)"

definition repr_bytes_char :: "char \<Rightarrow> char \<Rightarrow> string" where
  "repr_bytes_char q c =
     (if c = q \<or> c = BSL then [BSL, c]
      else if c = TAB then [BSL, CHR ''t'']
      else if c = LF then [BSL, CHR ''n'']
      else if c = CR then [BSL, CHR ''r'']
      else if (of_char c :: nat) < 32 \<or> 127 \<le> (of_char c :: nat) then hex_escape c
      else [c])"

definition repr_bytes :: "string \<Rightarrow> string" where
  "repr_bytes s = (let q = repr_quote s in [CHR ''b'', q] @ concat (map (repr_bytes_char q) s) @ [q])"

section \<open>Database Dumper (dbprint.py)\<close>

subsection \<open>Text and standard output\<close>

text \<open>
  A Python string is a sequence of code points. \<open>text_of\<close> gives the code points of an
  ASCII literal of the source.
\<close>

type_synonym pystr = "nat list"

definition text_of :: "string \<Rightarrow> pystr" where
  "text_of s = map of_char s"

text \<open>
  What the script depends on in the runtime beside the database. \<open>stdout_has\<close> tells
  which code points from 128 on the encoding of standard output has (none for ASCII,
  all but the surrogates for UTF-8); the ASCII code points are in every encoding.
  \<open>unicode_printable\<close> is the table behind \<^verbatim>\<open>str.isprintable\<close> for the code points
  from 256 on, which \<^verbatim>\<open>repr\<close> consults.
\<close>

record runtime =
  stdout_has :: "nat \<Rightarrow> bool"
  unicode_printable :: "nat \<Rightarrow> bool"

definition encodable :: "runtime \<Rightarrow> nat \<Rightarrow> bool" where
  "encodable rt c = (c < 128 \<or> stdout_has rt c)"

definition text_encodable :: "runtime \<Rightarrow> pystr \<Rightarrow> bool" where
  "text_encodable rt s = list_all (encodable rt) s"

datatype run_error = OperationalError string | DatabaseError string | UnicodeEncodeError

text \<open>
  \<^verbatim>\<open>print(s)\<close>, given the output written so far: the text is encoded as a whole and
  written, then the line feed. When a code point has no encoding,
  \<^verbatim>\<open>UnicodeEncodeError\<close> is raised and nothing of the text is written.
\<close>

definition py_print :: "runtime \<Rightarrow> pystr \<Rightarrow> pystr \<Rightarrow> run_error + pystr" where
  "py_print rt out s =
     (if text_encodable rt s then Inr (out @ s @ [10]) else Inl UnicodeEncodeError)"

text \<open>
  A loop that prints each text of a list (lines 14 and 15, lines 23 and 24), ended by
  the first \<^verbatim>\<open>print\<close> that raises.
\<close>

fun print_each :: "runtime \<Rightarrow> pystr \<Rightarrow> pystr list \<Rightarrow> pystr \<times> run_error option" where
  "print_each rt out [] = (out, None)"
| "print_each rt out (s # ss) =
     (case py_print rt out s of
        Inl e \<Rightarrow> (out, Some e)
      | Inr out' \<Rightarrow> print_each rt out' ss)"

subsection \<open>Values, rows and the database\<close>

text \<open>
  The values the database driver hands back in a row: \<^verbatim>\<open>None\<close>, an integer, a float,
  a string or a \<^verbatim>\<open>bytes\<close> object. A float carries the text the runtime prints for it;
  its binary format is outside the model.
\<close>

datatype sqlval =
    SNull
  | SInt int
  | SReal string
  | SText pystr
  | SBlob string

type_synonym row = "sqlval list"

text \<open>
  \<^verbatim>\<open>repr\<close> of a string. The quote is a single quote (39) unless the string holds a
  single quote and no double quote (34). Backslash (92) and the quote are escaped, tab,
  line feed and carriage return have their letters, a printable code point stands for
  itself, and any other is written \<^verbatim>\<open>\xhh\<close>, \<^verbatim>\<open>\uhhhh\<close> or \<^verbatim>\<open>\Uhhhhhhhh\<close>
  by its size. Below 256 the printable code points are 32 to 126 and 161 to 255 without
  173.
\<close>

definition text_quote :: "pystr \<Rightarrow> nat" where
  "text_quote s = (if 39 \<in> set s \<and> 34 \<notin> set s then 34 else 39)"

definition text_printable :: "runtime \<Rightarrow> nat \<Rightarrow> bool" where
  "text_printable rt c =
     (if c < 256 then (32 \<le> c \<and> c < 127) \<or> (161 \<le> c \<and> c \<noteq> 173)
      else unicode_printable rt c)"

definition hex_digits :: "nat \<Rightarrow> nat \<Rightarrow> string" where
  "hex_digits w c = map (\<lambda>k. hex_digit (c div 16 ^ k mod 16)) (rev [0..<w])"

definition repr_text_char :: "runtime \<Rightarrow> nat \<Rightarrow> nat \<Rightarrow> pystr" where
  "repr_text_char rt q c =
     (if c = q \<or> c = 92 then [92, c]
      else if c = 9 then text_of [BSL, CHR ''t'']
      else if c = 10 then text_of [BSL, CHR ''n'']
      else if c = 13 then text_of [BSL, CHR ''r'']
      else if text_printable rt c then [c]
      else if c < 256 then text_of ([BSL, CHR ''x''] @ hex_digits 2 c)
      else if c < 65536 then text_of ([BSL, CHR ''u''] @ hex_digits 4 c)
      else text_of ([BSL, CHR ''U''] @ hex_digits 8 c))"

definition repr_text :: "runtime \<Rightarrow> pystr \<Rightarrow> pystr" where
  "repr_text rt s =
     (let q = text_quote s in [q] @ concat (map (repr_text_char rt q) s) @ [q])"

fun repr_val :: "runtime \<Rightarrow> sqlval \<Rightarrow> pystr" where
  "repr_val rt SNull = text_of ''None''"
| "repr_val rt (SInt i) = text_of (str_int i)"
| "repr_val rt (SReal r) = text_of r"
| "repr_val rt (SText s) = repr_text rt s"
| "repr_val rt (SBlob b) = text_of (repr_bytes b)"

fun join_comma :: "pystr list \<Rightarrow> pystr" where
  "join_comma [] = []"
| "join_comma [x] = x"
| "join_comma (x # y # ys) = x @ text_of '', '' @ join_comma (y # ys)"

text \<open>
  \<^verbatim>\<open>repr\<close> of a tuple, which is what \<^verbatim>\<open>print(row)\<close> writes: the fields in order,
  separated by a comma and a space, in parentheses; a tuple of one field has a trailing
  comma.
\<close>

definition repr_row :: "runtime \<Rightarrow> row \<Rightarrow> pystr" where
  "repr_row rt r = (case r of
       [v] \<Rightarrow> text_of ''('' @ repr_val rt v @ text_of '',)''
     | _ \<Rightarrow> text_of ''('' @ join_comma (map (repr_val rt) r) @ text_of '')'')"

text \<open>
  A database. \<open>sqlite_master\<close> is the schema catalog, a list of entries (type, name) in
  the order the catalog query returns them, or the error raised when reading it.
  \<open>contents\<close> gives the rows each table holds, in the order of a full scan.
  \<open>execute\<close> is the engine's answer to the text of a query: the rows \<^verbatim>\<open>fetchall\<close>
  returns, or the error raised. The script reaches the rows of a table only through
  \<open>execute\<close>, on a text made from the table's name; nothing in the script makes that
  answer the rows of the table.
\<close>

record database =
  sqlite_master :: "run_error + (pystr \<times> pystr) list"
  contents :: "pystr \<Rightarrow> row list"
  execute :: "pystr \<Rightarrow> run_error + row list"

text \<open>Lines 10 and 11: \<^verbatim>\<open>SELECT name FROM sqlite_master WHERE type='table';\<close> and \<^verbatim>\<open>fetchall\<close>.\<close>

definition fetch_tables :: "database \<Rightarrow> run_error + pystr list" where
  "fetch_tables db = (case sqlite_master db of
       Inl e \<Rightarrow> Inl e
     | Inr entries \<Rightarrow> Inr (map snd (filter (\<lambda>e. fst e = text_of ''table'') entries)))"

text \<open>Line 20: the query text, the table name interpolated as it is.\<close>

definition select_all_sql :: "pystr \<Rightarrow> pystr" where
  "select_all_sql name = text_of ''SELECT * FROM '' @ name"

text \<open>Line 19: the text printed before the rows of a table, a line feed and the header.\<close>

definition content_header :: "pystr \<Rightarrow> pystr" where
  "content_header name =
     [10] @ text_of ''Content of table '' @ [39] @ name @ [39] @ text_of '':''"

subsection \<open>The script\<close>

datatype conn_state = NotConnected | ConnOpen | ConnClosed

record run =
  stdout :: pystr
  conn :: conn_state
  uncaught :: "run_error option"

text \<open>
  Lines 18 to 24, the second loop over \<open>tables\<close>, with the output so far threaded
  through: the header is printed, the query executed, each row printed. The first
  statement that raises ends the loop with the output written until then.
\<close>

fun dump_tables :: "runtime \<Rightarrow> database \<Rightarrow> pystr list \<Rightarrow> pystr \<Rightarrow> pystr \<times> run_error option" where
  "dump_tables rt db [] out = (out, None)"
| "dump_tables rt db (t # ts) out =
     (case py_print rt out (content_header t) of
        Inl e \<Rightarrow> (out, Some e)
      | Inr out1 \<Rightarrow>
          (case execute db (select_all_sql t) of
             Inl e \<Rightarrow> (out1, Some e)
           | Inr rows \<Rightarrow>
               (case print_each rt out1 (map (repr_row rt) rows) of
                  (out2, Some e) \<Rightarrow> (out2, Some e)
                | (out2, None) \<Rightarrow> dump_tables rt db ts out2)))"

definition DB_PATH :: string where
  "DB_PATH = ''./data/mindnoscape.db''"

text \<open>
  The whole script. \<open>connect\<close> is what \<^verbatim>\<open>sqlite3.connect\<close> yields for a path. The
  call \<^verbatim>\<open>conn.close()\<close> is the last statement, so it runs only when no query and no
  \<^verbatim>\<open>print\<close> before it raised.
\<close>

definition dbprint :: "runtime \<Rightarrow> (string \<Rightarrow> run_error + database) \<Rightarrow> run" where
  "dbprint rt connect = (case connect DB_PATH of
       Inl e \<Rightarrow> \<lparr>stdout = [], conn = NotConnected, uncaught = Some e\<rparr>
     | Inr db \<Rightarrow> (case fetch_tables db of
         Inl e \<Rightarrow> \<lparr>stdout = [], conn = ConnOpen, uncaught = Some e\<rparr>
       | Inr tables \<Rightarrow>
           (case py_print rt [] (text_of ''Tables in the database:'') of
              Inl e \<Rightarrow> \<lparr>stdout = [], conn = ConnOpen, uncaught = Some e\<rparr>
            | Inr out0 \<Rightarrow>
                (case print_each rt out0 tables of
                   (out1, Some e) \<Rightarrow> \<lparr>stdout = out1, conn = ConnOpen, uncaught = Some e\<rparr>
                 | (out1, None) \<Rightarrow>
                     (case dump_tables rt db tables out1 of
                        (out, Some e) \<Rightarrow> \<lparr>stdout = out, conn = ConnOpen, uncaught = Some e\<rparr>
                      | (out, None) \<Rightarrow> \<lparr>stdout = out, conn = ConnClosed, uncaught = None\<rparr>)))))"

subsection \<open>The output the specification describes\<close>

text \<open>
  Written from the specification's words: the header line, one table name per line,
  then for each table a blank line, the content header and one line per row, each row
  as a tuple of its field values. \<open>rows_of\<close> gives the rows of each table.
\<close>

definition out_line :: "pystr \<Rightarrow> pystr" where
  "out_line s = s @ [10]"

definition claimed_output :: "runtime \<Rightarrow> pystr list \<Rightarrow> (pystr \<Rightarrow> row list) \<Rightarrow> pystr" where
  "claimed_output rt names rows_of =
     out_line (text_of ''Tables in the database:'') @
     concat (map out_line names) @
     concat (map (\<lambda>n. out_line [] @
                       out_line (text_of ''Content of table '' @ [39] @ n @ [39] @ text_of '':'') @
                       concat (map (\<lambda>r. out_line (repr_row rt r)) (rows_of n))) names)"

text \<open>
  No statement of the script raises: the connection is made, the catalog query returns,
  every table name can be encoded, and for every table the content query returns rows
  whose printed form can be encoded.
\<close>

definition rows_encodable :: "runtime \<Rightarrow> row list \<Rightarrow> bool" where
  "rows_encodable rt rows = list_all (\<lambda>r. text_encodable rt (repr_row rt r)) rows"

definition table_dumps :: "runtime \<Rightarrow> database \<Rightarrow> pystr \<Rightarrow> bool" where
  "table_dumps rt db n =
     (text_encodable rt n \<and>
      (case execute db (select_all_sql n) of
         Inl e \<Rightarrow> False
       | Inr rows \<Rightarrow> rows_encodable rt rows))"

definition nothing_raises :: "runtime \<Rightarrow> (string \<Rightarrow> run_error + database) \<Rightarrow> bool" where
  "nothing_raises rt connect = (case connect DB_PATH of
       Inl e \<Rightarrow> False
     | Inr db \<Rightarrow> (case fetch_tables db of
         Inl e \<Rightarrow> False
       | Inr names \<Rightarrow> list_all (table_dumps rt db) names))"

subsection \<open>Example runtimes and databases\<close>

text \<open>Standard output in UTF-8, and in ASCII.\<close>

definition utf8_runtime :: runtime where
  "utf8_runtime = \<lparr>stdout_has = (\<lambda>c. (c < 55296 \<or> 57344 \<le> c) \<and> c < 1114112),
                    unicode_printable = (\<lambda>c. True)\<rparr>"

definition ascii_runtime :: runtime where
  "ascii_runtime = \<lparr>stdout_has = (\<lambda>c. False), unicode_printable = (\<lambda>c. True)\<rparr>"

text \<open>The scenario of the specification: one table \<open>users\<close> with two rows (and an index).\<close>

definition users_rows :: "row list" where
  "users_rows = [[SInt 1, SText (text_of ''alice'')], [SInt 2, SText (text_of ''bob'')]]"

definition users_db :: database where
  "users_db = \<lparr>sqlite_master = Inr [(text_of ''table'', text_of ''users''),
                                     (text_of ''index'', text_of ''users_idx'')],
     contents = (\<lambda>n. if n = text_of ''users'' then users_rows else []),
     execute = (\<lambda>q. if q = text_of ''SELECT * FROM users'' then Inr users_rows
                     else Inl (OperationalError ''no such table''))\<rparr>"

definition users_connect :: "string \<Rightarrow> run_error + database" where
  "users_connect path = (if path = ''./data/mindnoscape.db'' then Inr users_db
                         else Inl (OperationalError ''unable to open database file''))"

text \<open>
  A database with a table named \<open>order\<close>, a reserved word of the query language: the
  text \<^verbatim>\<open>SELECT * FROM order\<close> is a syntax error for the engine.
\<close>

definition order_db :: database where
  "order_db = \<lparr>sqlite_master = Inr [(text_of ''table'', text_of ''order''),
                                     (text_of ''table'', text_of ''users'')],
     contents = (\<lambda>n. if n = text_of ''users'' then users_rows
                      else if n = text_of ''order'' then [[SInt 1]] else []),
     execute = (\<lambda>q. if q = text_of ''SELECT * FROM users'' then Inr users_rows
                     else Inl (OperationalError (''near '' @ [DQ] @ ''order'' @ [DQ] @ '': syntax error'')))\<rparr>"

definition order_connect :: "string \<Rightarrow> run_error + database" where
  "order_connect path = Inr order_db"

text \<open>
  A database with the tables \<open>a\<close>, \<open>b\<close> and one named \<open>a, b\<close>, holding the rows (1,),
  (2,) and (3,): the text \<^verbatim>\<open>SELECT * FROM a, b\<close> is the join of \<open>a\<close> and \<open>b\<close> for
  the engine, with the one row (1, 2).
\<close>

definition join_db :: database where
  "join_db = \<lparr>sqlite_master = Inr [(text_of ''table'', text_of ''a''),
                                    (text_of ''table'', text_of ''b''),
                                    (text_of ''table'', text_of ''a, b'')],
     contents = (\<lambda>n. if n = text_of ''a'' then [[SInt 1]]
                      else if n = text_of ''b'' then [[SInt 2]]
                      else if n = text_of ''a, b'' then [[SInt 3]] else []),
     execute = (\<lambda>q. if q = text_of ''SELECT * FROM a'' then Inr [[SInt 1]]
                     else if q = text_of ''SELECT * FROM b'' then Inr [[SInt 2]]
                     else if q = text_of ''SELECT * FROM a, b'' then Inr [[SInt 1, SInt 2]]
                     else Inl (OperationalError ''no such table''))\<rparr>"

definition join_connect :: "string \<Rightarrow> run_error + database" where
  "join_connect path = Inr join_db"

text \<open>A database with one table \<open>t\<close> holding the rows (1,) and (\<open>e\<close> with acute accent,).\<close>

definition accent_db :: database where
  "accent_db = \<lparr>sqlite_master = Inr [(text_of ''table'', text_of ''t'')],
     contents = (\<lambda>n. if n = text_of ''t'' then [[SInt 1], [SText [233]]] else []),
     execute = (\<lambda>q. if q = text_of ''SELECT * FROM t'' then Inr [[SInt 1], [SText [233]]]
                     else Inl (OperationalError ''no such table''))\<rparr>"

definition accent_connect :: "string \<Rightarrow> run_error + database" where
  "accent_connect path = Inr accent_db"

text \<open>A database with an index and a view in its catalog, and no table.\<close>

definition tableless_db :: database where
  "tableless_db = \<lparr>sqlite_master = Inr [(text_of ''index'', text_of ''idx''),
                                         (text_of ''view'', text_of ''v'')],
     contents = (\<lambda>n. []),
     execute = (\<lambda>q. Inl (OperationalError ''no such table''))\<rparr>"

definition tableless_connect :: "string \<Rightarrow> run_error + database" where
  "tableless_connect path = Inr tableless_db"

section \<open>Line Counter (linecount.py)\<close>

subsection \<open>Reading a file as text\<close>

datatype io_error = OSError string | UnicodeDecodeError

text \<open>
  What is behind a name in a directory listing that is not a directory: bytes that
  \<^verbatim>\<open>open\<close> gives access to, or the error \<^verbatim>\<open>open\<close> raises (permission denied, a
  broken symbolic link).
\<close>

datatype file_data = Unopenable string | Bytes string

definition is_cont :: "nat \<Rightarrow> bool" where
  "is_cont b = (128 \<le> b \<and> b < 192)"

text \<open>
  Strict UTF-8 decoding to code points, as \<^verbatim>\<open>encoding='utf-8'\<close> does: \<open>None\<close> where
  the decoder raises (a stray continuation byte, a truncated or overlong sequence, a
  surrogate, a code point above 0x10FFFF).
\<close>

fun utf8_decode :: "nat list \<Rightarrow> nat list option" where
  "utf8_decode [] = Some []"
| "utf8_decode (b0 # bs) =
     (if b0 < 128 then map_option (Cons b0) (utf8_decode bs)
      else if b0 < 194 then None
      else if b0 < 224 then
        (case bs of
           b1 # r \<Rightarrow>
             if is_cont b1
             then map_option (Cons ((b0 - 192) * 64 + (b1 - 128))) (utf8_decode r)
             else None
         | _ \<Rightarrow> None)
      else if b0 < 240 then
        (case bs of
           b1 # b2 # r \<Rightarrow>
             (let cp = (b0 - 224) * 4096 + (b1 - 128) * 64 + (b2 - 128) in
              if is_cont b1 \<and> is_cont b2 \<and> 2048 \<le> cp \<and> \<not> (55296 \<le> cp \<and> cp < 57344)
              then map_option (Cons cp) (utf8_decode r)
              else None)
         | _ \<Rightarrow> None)
      else if b0 < 245 then
        (case bs of
           b1 # b2 # b3 # r \<Rightarrow>
             (let cp = (b0 - 240) * 262144 + (b1 - 128) * 4096 + (b2 - 128) * 64 + (b3 - 128) in
              if is_cont b1 \<and> is_cont b2 \<and> is_cont b3 \<and> 65536 \<le> cp \<and> cp < 1114112
              then map_option (Cons cp) (utf8_decode r)
              else None)
         | _ \<Rightarrow> None)
      else None)"

text \<open>
  Text mode with universal newlines (the default of \<^verbatim>\<open>open\<close>): carriage return
  followed by line feed, and a carriage return alone, are read as one line feed.
\<close>

fun translate_newlines :: "nat list \<Rightarrow> nat list" where
  "translate_newlines [] = []"
| "translate_newlines [c] = [if c = 13 then 10 else c]"
| "translate_newlines (c # d # cs) =
     (if c = 13 \<and> d = 10 then 10 # translate_newlines cs
      else if c = 13 then 10 # translate_newlines (d # cs)
      else c # translate_newlines (d # cs))"

text \<open>
  Splitting the translated text into lines, each with its line feed; \<open>cur\<close> is the line
  being read. Text after the last line feed is a line of its own.
\<close>

fun split_lines :: "nat list \<Rightarrow> nat list \<Rightarrow> nat list list" where
  "split_lines cur [] = (if cur = [] then [] else [cur])"
| "split_lines cur (c # cs) =
     (if c = 10 then (cur @ [c]) # split_lines [] cs else split_lines (cur @ [c]) cs)"

text \<open>Line 13, \<^verbatim>\<open>f.readlines()\<close> on a file opened with \<^verbatim>\<open>encoding='utf-8'\<close>.\<close>

definition readlines :: "string \<Rightarrow> io_error + nat list list" where
  "readlines bytes = (case utf8_decode (map of_char bytes) of
       None \<Rightarrow> Inl UnicodeDecodeError
     | Some text \<Rightarrow> Inr (split_lines [] (translate_newlines text)))"

text \<open>Lines 12 and 13: \<^verbatim>\<open>open\<close>, then \<^verbatim>\<open>readlines\<close>.\<close>

definition open_readlines :: "file_data \<Rightarrow> io_error + nat list list" where
  "open_readlines d = (case d of
       Unopenable msg \<Rightarrow> Inl (OSError msg)
     | Bytes bytes \<Rightarrow> readlines bytes)"

subsection \<open>The directory tree and its traversal\<close>

text \<open>
  An entry of a directory: a file (anything that is not a directory, with what opening
  it gives), a directory with its entries in the order the file system enumerates them,
  or a directory the traversal does not enter (its listing fails, or it is a symbolic
  link to a directory; \<^verbatim>\<open>os.walk\<close> ignores both silently).
\<close>

datatype node =
    File string file_data
  | Dir string "node list"
  | SkippedDir string

fun node_name :: "node \<Rightarrow> string" where
  "node_name (File n d) = n"
| "node_name (Dir n cs) = n"
| "node_name (SkippedDir n) = n"

fun node_files :: "node \<Rightarrow> (string \<times> file_data) list" where
  "node_files (File n d) = [(n, d)]"
| "node_files (Dir n cs) = []"
| "node_files (SkippedDir n) = []"

fun node_dirs :: "node \<Rightarrow> string list" where
  "node_dirs (File n d) = []"
| "node_dirs (Dir n cs) = [n]"
| "node_dirs (SkippedDir n) = [n]"

definition os_path_join :: "string \<Rightarrow> string \<Rightarrow> string" where
  "os_path_join a b =
     (if b \<noteq> [] \<and> hd b = CHR ''/'' then b
      else if a = [] \<or> last a = CHR ''/'' then a @ b
      else a @ ''/'' @ b)"

type_synonym walk_entry = "string \<times> string list \<times> (string \<times> file_data) list"

text \<open>
  \<^verbatim>\<open>os.walk(path)\<close>, top-down: for a directory one triple (path, names of its
  subdirectories, its files), then the triples of each subdirectory in order. The files
  carry what opening them gives, which stands for opening the joined path of line 11.
\<close>

fun os_walk :: "string \<Rightarrow> node \<Rightarrow> walk_entry list" where
  "os_walk path (File n d) = []"
| "os_walk path (SkippedDir n) = []"
| "os_walk path (Dir n cs) =
     (path, concat (map node_dirs cs), concat (map node_files cs)) #
     concat (map (\<lambda>c. os_walk (os_path_join path (node_name c)) c) cs)"

subsection \<open>The counting loops\<close>

text \<open>Python's \<^verbatim>\<open>str.endswith\<close>.\<close>

definition endswith :: "string \<Rightarrow> string \<Rightarrow> bool" where
  "endswith s suffix =
     (length suffix \<le> length s \<and> drop (length s - length suffix) s = suffix)"

record counters =
  total_lines :: int
  go_files_count :: int

text \<open>Lines 9 to 14, the body of the inner loop for one file.\<close>

definition count_file :: "counters \<Rightarrow> string \<times> file_data \<Rightarrow> io_error + counters" where
  "count_file c f =
     (if endswith (fst f) ''.go'' then
        (let c1 = c\<lparr>go_files_count := go_files_count c + 1\<rparr> in
         case open_readlines (snd f) of
           Inl e \<Rightarrow> Inl e
         | Inr lines \<Rightarrow> Inr (c1\<lparr>total_lines := total_lines c1 + int (length lines)\<rparr>))
      else Inr c)"

text \<open>Line 8, the loop over the files of one directory.\<close>

fun count_files :: "counters \<Rightarrow> (string \<times> file_data) list \<Rightarrow> io_error + counters" where
  "count_files c [] = Inr c"
| "count_files c (f # fs) =
     (case count_file c f of Inl e \<Rightarrow> Inl e | Inr c' \<Rightarrow> count_files c' fs)"

text \<open>Line 7, the loop over the triples of the traversal.\<close>

fun count_walk :: "counters \<Rightarrow> walk_entry list \<Rightarrow> io_error + counters" where
  "count_walk c [] = Inr c"
| "count_walk c ((root, dirs, files) # ws) =
     (case count_files c files of Inl e \<Rightarrow> Inl e | Inr c' \<Rightarrow> count_walk c' ws)"

text \<open>
  \<open>count_go_lines\<close>: \<open>directory\<close> is the path given, \<open>tree\<close> what the file system holds
  there. The pair returned is (matching files, lines).
\<close>

definition count_go_lines :: "string \<Rightarrow> node \<Rightarrow> io_error + int \<times> int" where
  "count_go_lines directory tree =
     (case count_walk \<lparr>total_lines = 0, go_files_count = 0\<rparr> (os_walk directory tree) of
        Inl e \<Rightarrow> Inl e
      | Inr c \<Rightarrow> Inr (go_files_count c, total_lines c))"

record lc_run =
  lc_stdout :: string
  lc_uncaught :: "io_error option"

text \<open>Lines 18 to 21, the program: the default directory, then the two summary lines.\<close>

definition linecount_main :: "node \<Rightarrow> lc_run" where
  "linecount_main tree = (case count_go_lines ''.'' tree of
       Inl e \<Rightarrow> \<lparr>lc_stdout = [], lc_uncaught = Some e\<rparr>
     | Inr (n, l) \<Rightarrow>
         \<lparr>lc_stdout = print (''Total Go files: '' @ str_int n) @
                      print (''Total lines of Go code: '' @ str_int l),
          lc_uncaught = None\<rparr>)"

subsection \<open>Notions the properties are stated with\<close>

text \<open>
  The files a tree contains: the files of every directory the traversal enters, at any
  depth. Directory names play no part in it.
\<close>

fun files_below :: "node \<Rightarrow> (string \<times> file_data) list" where
  "files_below (File n d) = []"
| "files_below (SkippedDir n) = []"
| "files_below (Dir n cs) = concat (map (\<lambda>c. node_files c @ files_below c) cs)"

text \<open>The files in the order the two loops meet them.\<close>

definition all_files :: "string \<Rightarrow> node \<Rightarrow> (string \<times> file_data) list" where
  "all_files path tree = concat (map (\<lambda>w. snd (snd w)) (os_walk path tree))"

text \<open>
  The values of the counters before the first file and after each file, until the loop
  ends or a file raises.
\<close>

fun count_trace :: "counters \<Rightarrow> (string \<times> file_data) list \<Rightarrow> counters list" where
  "count_trace c [] = [c]"
| "count_trace c (f # fs) =
     c # (case count_file c f of Inl e \<Rightarrow> [] | Inr c' \<Rightarrow> count_trace c' fs)"

definition counters_le :: "counters \<Rightarrow> counters \<Rightarrow> bool" where
  "counters_le a b = (go_files_count a \<le> go_files_count b \<and> total_lines a \<le> total_lines b)"

definition file_lines :: "file_data \<Rightarrow> int" where
  "file_lines d = (case open_readlines d of Inl e \<Rightarrow> 0 | Inr ls \<Rightarrow> int (length ls))"

definition is_go :: "string \<times> file_data \<Rightarrow> bool" where
  "is_go f = endswith (fst f) ''.go''"

text \<open>
  The number of lines of a text, from the specification's words: every line-terminator
  sequence (line feed, carriage return, or carriage return and line feed together) ends
  one line, text after the last terminator is one more line, and the empty text has no
  line.
\<close>

fun count_crlf :: "nat list \<Rightarrow> nat" where
  "count_crlf [] = 0"
| "count_crlf [c] = 0"
| "count_crlf (c # d # cs) = (if c = 13 \<and> d = 10 then 1 else 0) + count_crlf (d # cs)"

definition spec_line_count :: "nat list \<Rightarrow> nat" where
  "spec_line_count text =
     (count_list text 10 + count_list text 13 - count_crlf text) +
     (if text \<noteq> [] \<and> last text \<noteq> 10 \<and> last text \<noteq> 13 then 1 else 0)"

subsection \<open>Example trees\<close>

definition a_go :: file_data where
  "a_go = Bytes (''package a'' @ [LF] @ ''func A() {'' @ [LF] @ ''}'' @ [LF])"

definition b_go :: file_data where
  "b_go = Bytes (''package b'' @ [CR, LF] @ [CR, LF] @ ''func B() {'' @ [CR, LF] @
                 ''  return'' @ [CR, LF] @ ''}'')"

definition c_txt :: file_data where
  "c_txt = Bytes (concat (replicate 100 (''x'' @ [LF])))"

text \<open>The scenario of the specification, with \<open>a.go\<close> one directory down.\<close>

definition scenario_tree :: node where
  "scenario_tree = Dir ''.'' [File ''c.txt'' c_txt, Dir ''pkg'' [File ''a.go'' a_go], File ''b.go'' b_go]"

text \<open>A tree without any file named \<open>*.go\<close>; a directory is named \<open>vendor.go\<close>.\<close>

definition no_go_tree :: node where
  "no_go_tree = Dir ''.'' [File ''README.md'' (Bytes ''hello''),
     Dir ''vendor.go'' [File ''main.GO'' (Unopenable ''Permission denied''), File ''x.Go'' a_go],
     SkippedDir ''link'']"

text \<open>A tree where the second \<open>*.go\<close> file is not valid UTF-8.\<close>

definition bad_utf8_tree :: node where
  "bad_utf8_tree = Dir ''.'' [File ''a.go'' a_go, Dir ''sub'' [File ''bad.go'' (Bytes [CHR 0xFF])]]"

text \<open>A tree with a file named exactly \<open>.go\<close> inside a directory named \<open>dir.go\<close>.\<close>

definition dotgo_tree :: node where
  "dotgo_tree = Dir ''.'' [Dir ''dir.go'' [File ''.go'' a_go, File ''B.GO'' b_go], File ''b.Go'' b_go]"

section \<open>Properties of the Database Dumper\<close>

lemma print_each_ok:
  "list_all (text_encodable rt) ss \<Longrightarrow>
   print_each rt out ss = (out @ concat (map out_line ss), None)"
  by (induction ss arbitrary: out) (simp_all add: py_print_def out_line_def)

lemma print_each_None_iff:
  "snd (print_each rt out ss) = None \<longleftrightarrow> list_all (text_encodable rt) ss"
  by (induction ss arbitrary: out) (simp_all add: py_print_def)

lemma header_text_encodable [simp]:
  "text_encodable rt (text_of ''Tables in the database:'')"
  by (simp add: text_encodable_def text_of_def encodable_def)

lemma content_header_encodable:
  "text_encodable rt (content_header n) \<longleftrightarrow> text_encodable rt n"
  by (simp add: text_encodable_def content_header_def text_of_def encodable_def)

lemma dump_tables_ok:
  "\<forall>t \<in> set ts. text_encodable rt t \<and> execute db (select_all_sql t) = Inr (rows_of t) \<and>
      rows_encodable rt (rows_of t) \<Longrightarrow>
   dump_tables rt db ts out =
     (out @ concat (map (\<lambda>t. out_line (content_header t) @
                              concat (map (\<lambda>r. out_line (repr_row rt r)) (rows_of t))) ts), None)"
proof (induction ts arbitrary: out)
  case Nil
  show ?case by simp
next
  case (Cons t ts)
  from Cons.prems have t: "text_encodable rt t" "execute db (select_all_sql t) = Inr (rows_of t)"
    "rows_encodable rt (rows_of t)"
    by simp_all
  from t(3) have "list_all (text_encodable rt) (map (repr_row rt) (rows_of t))"
    by (simp add: rows_encodable_def list_all_iff)
  from print_each_ok[OF this]
  have p: "print_each rt o1 (map (repr_row rt) (rows_of t)) =
      (o1 @ concat (map (\<lambda>r. out_line (repr_row rt r)) (rows_of t)), None)" for o1
    by (simp add: comp_def)
  from Cons.prems have "\<forall>t \<in> set ts. text_encodable rt t \<and>
      execute db (select_all_sql t) = Inr (rows_of t) \<and> rows_encodable rt (rows_of t)"
    by simp
  from Cons.IH[OF this] t p show ?case
    by (simp add: py_print_def content_header_encodable out_line_def)
qed

lemma dump_tables_None_iff:
  "snd (dump_tables rt db ts out) = None \<longleftrightarrow> list_all (table_dumps rt db) ts"
proof (induction ts arbitrary: out)
  case Nil
  show ?case by simp
next
  case (Cons t ts)
  show ?case
  proof (cases "text_encodable rt t")
    case False
    then show ?thesis by (simp add: py_print_def content_header_encodable table_dumps_def)
  next
    case enc: True
    show ?thesis
    proof (cases "execute db (select_all_sql t)")
      case (Inl e)
      with enc show ?thesis by (simp add: py_print_def content_header_encodable table_dumps_def)
    next
      case (Inr rows)
      obtain o2 r where p: "print_each rt (out @ content_header t @ [10]) (map (repr_row rt) rows) = (o2, r)"
        by (cases "print_each rt (out @ content_header t @ [10]) (map (repr_row rt) rows)")
      with print_each_None_iff[of rt "out @ content_header t @ [10]" "map (repr_row rt) rows"]
      have r: "r = None \<longleftrightarrow> rows_encodable rt rows"
        by (simp add: rows_encodable_def list_all_iff)
      show ?thesis
      proof (cases r)
        case None
        with enc Inr p r Cons.IH[of o2] show ?thesis
          by (simp add: py_print_def content_header_encodable table_dumps_def)
      next
        case (Some e)
        with enc Inr p r show ?thesis
          by (simp add: py_print_def content_header_encodable table_dumps_def)
      qed
    qed
  qed
qed

lemma table_dumps_encodable: "list_all (table_dumps rt db) names \<Longrightarrow> list_all (text_encodable rt) names"
  by (simp add: list_all_iff table_dumps_def)

lemma dbprint_cases:
  "(conn (dbprint rt connect) = ConnClosed \<longleftrightarrow> nothing_raises rt connect) \<and>
   (uncaught (dbprint rt connect) = None \<longleftrightarrow> nothing_raises rt connect)"
proof (cases "connect DB_PATH")
  case (Inl e)
  then show ?thesis by (simp add: dbprint_def nothing_raises_def)
next
  case db: (Inr db)
  show ?thesis
  proof (cases "fetch_tables db")
    case (Inl e)
    with db show ?thesis by (simp add: dbprint_def nothing_raises_def)
  next
    case names: (Inr names)
    define out0 where "out0 = text_of ''Tables in the database:'' @ [10]"
    have h: "py_print rt [] (text_of ''Tables in the database:'') = Inr out0"
      by (simp add: py_print_def out0_def)
    obtain out1 r1 where p1: "print_each rt out0 names = (out1, r1)"
      by (cases "print_each rt out0 names")
    with print_each_None_iff[of rt out0 names]
    have r1: "r1 = None \<longleftrightarrow> list_all (text_encodable rt) names" by simp
    show ?thesis
    proof (cases r1)
      case (Some e)
      with r1 have "\<not> list_all (table_dumps rt db) names"
        using table_dumps_encodable by blast
      with db names h p1 Some show ?thesis
        by (simp add: dbprint_def nothing_raises_def)
    next
      case None
      obtain out r where d: "dump_tables rt db names out1 = (out, r)"
        by (cases "dump_tables rt db names out1")
      with dump_tables_None_iff[of rt db names out1]
      have "r = None \<longleftrightarrow> list_all (table_dumps rt db) names" by simp
      with db names h p1 None d show ?thesis
        by (cases r) (simp_all add: dbprint_def nothing_raises_def)
    qed
  qed
qed

lemmas char_defs = LF_def CR_def TAB_def SQ_def DQ_def BSL_def

lemmas repr_defs = repr_row_def str_int_def str_nat.simps digit_char_def repr_text_def
  text_quote_def repr_text_char_def text_printable_def Let_def text_of_def

lemmas run_defs = dbprint_def fetch_tables_def select_all_sql_def content_header_def
  py_print_def text_encodable_def encodable_def DB_PATH_def
subsection \<open>Claims about the Database Dumper\<close>

text \<open>
  C1, as amended. The call that closes the connection is reached exactly when no
  statement before it raises: when the connection is made, the catalog query and every
  content query succeed and every \<^verbatim>\<open>print\<close> succeeds, the run ends with the
  connection closed and no error; in every other run the connection is not closed and
  an error is uncaught; and when the connection was made and something raised, the run
  ends with the connection still open.
\<close>

theorem close_reached_iff_nothing_raised:
  "(nothing_raises rt connect \<longrightarrow>
      conn (dbprint rt connect) = ConnClosed \<and> uncaught (dbprint rt connect) = None) \<and>
   (\<not> nothing_raises rt connect \<longrightarrow>
      conn (dbprint rt connect) \<noteq> ConnClosed \<and> uncaught (dbprint rt connect) \<noteq> None) \<and>
   (\<forall>db. connect DB_PATH = Inr db \<and> \<not> nothing_raises rt connect \<longrightarrow>
      conn (dbprint rt connect) = ConnOpen)"
proof -
  have "conn (dbprint rt connect) = ConnOpen"
    if "connect DB_PATH = Inr db" and "conn (dbprint rt connect) \<noteq> ConnClosed" for db
    using that
    by (auto simp: dbprint_def split: sum.splits prod.splits option.splits)
  then show ?thesis
    using dbprint_cases[of rt connect] by blast
qed

text \<open>
  Witness for C1: the \<open>users\<close> database is dumped and closed; on the database with the
  table \<open>order\<close> the content query raises and the connection stays open; with an
  ASCII standard output the row with the accented letter makes \<^verbatim>\<open>print\<close> raise and
  the connection stays open.
\<close>

theorem close_reached_iff_nothing_raised_witness:
  "nothing_raises utf8_runtime users_connect \<and>
   conn (dbprint utf8_runtime users_connect) = ConnClosed \<and>
   order_connect DB_PATH = Inr order_db \<and> \<not> nothing_raises utf8_runtime order_connect \<and>
   conn (dbprint utf8_runtime order_connect) = ConnOpen \<and>
   uncaught (dbprint utf8_runtime order_connect) \<noteq> None \<and>
   accent_connect DB_PATH = Inr accent_db \<and> \<not> nothing_raises ascii_runtime accent_connect \<and>
   conn (dbprint ascii_runtime accent_connect) = ConnOpen"
proof -
  have a: "nothing_raises utf8_runtime users_connect"
    by (simp add: nothing_raises_def table_dumps_def rows_encodable_def users_connect_def
        users_db_def users_rows_def utf8_runtime_def run_defs repr_defs)
  have b: "order_connect DB_PATH = Inr order_db"
    by (simp add: order_connect_def)
  have c: "\<not> nothing_raises utf8_runtime order_connect"
    by (simp add: nothing_raises_def table_dumps_def rows_encodable_def order_connect_def
        order_db_def users_rows_def utf8_runtime_def run_defs repr_defs)
  have d: "accent_connect DB_PATH = Inr accent_db"
    by (simp add: accent_connect_def)
  have e: "\<not> nothing_raises ascii_runtime accent_connect"
    by (simp add: nothing_raises_def table_dumps_def rows_encodable_def accent_connect_def
        accent_db_def ascii_runtime_def run_defs repr_defs)
  show ?thesis
    using a b c d e close_reached_iff_nothing_raised[of utf8_runtime users_connect]
      close_reached_iff_nothing_raised[of utf8_runtime order_connect]
      close_reached_iff_nothing_raised[of ascii_runtime accent_connect]
    by blast
qed

text \<open>
  Counterexample to C1 as stated (the connection is closed on every exit path): the run
  on the database with the table \<open>order\<close> ends without the connection closed.
\<close>

theorem close_skipped_counterexample:
  "conn (dbprint utf8_runtime order_connect) \<noteq> ConnClosed"
  by (simp add: order_connect_def order_db_def utf8_runtime_def run_defs text_of_def)

text \<open>
  C2, as amended. For every database on which the connection and the catalog query
  succeed, on which the content query of every table returns the rows of that table, and
  whose table names and printed rows standard output can encode, the output is exactly
  the header line, one table name per line, then for each table a blank line, the
  content header and one line per row of the table, each row as the tuple of its field
  values; and the run ends without error.
\<close>

theorem dump_output_when_nothing_raises:
  assumes "connect DB_PATH = Inr db" and "fetch_tables db = Inr names"
    and "\<forall>n \<in> set names. execute db (select_all_sql n) = Inr (contents db n)"
    and "\<forall>n \<in> set names. text_encodable rt n"
    and "\<forall>n \<in> set names. \<forall>r \<in> set (contents db n). text_encodable rt (repr_row rt r)"
  shows "stdout (dbprint rt connect) = claimed_output rt names (contents db) \<and>
         uncaught (dbprint rt connect) = None"
proof -
  have enc: "list_all (text_encodable rt) names"
    using assms(4) by (simp add: list_all_iff)
  have "\<forall>t \<in> set names. text_encodable rt t \<and>
      execute db (select_all_sql t) = Inr (contents db t) \<and> rows_encodable rt (contents db t)"
    using assms(3-5) by (simp add: rows_encodable_def list_all_iff)
  from dump_tables_ok[OF this] print_each_ok[OF enc] assms(1,2)
  show ?thesis
    by (simp add: dbprint_def py_print_def claimed_output_def content_header_def out_line_def)
qed

text \<open>
  Witness for C2, the scenario of the specification: one table \<open>users\<close> with the rows
  (1, 'alice') and (2, 'bob') gives exactly the six lines.
\<close>

theorem dump_output_when_nothing_raises_witness:
  "users_connect DB_PATH = Inr users_db \<and> fetch_tables users_db = Inr [text_of ''users''] \<and>
   execute users_db (select_all_sql (text_of ''users'')) = Inr (contents users_db (text_of ''users'')) \<and>
   contents users_db (text_of ''users'') =
     [[SInt 1, SText (text_of ''alice'')], [SInt 2, SText (text_of ''bob'')]] \<and>
   stdout (dbprint utf8_runtime users_connect) = concat (map (\<lambda>l. text_of l @ [10])
     [''Tables in the database:'',
      ''users'',
      '''',
      ''Content of table '' @ [SQ] @ ''users'' @ [SQ] @ '':'',
      ''(1, '' @ [SQ] @ ''alice'' @ [SQ] @ '')'',
      ''(2, '' @ [SQ] @ ''bob'' @ [SQ] @ '')''])"
proof -
  have a: "users_connect DB_PATH = Inr users_db"
    by (simp add: users_connect_def DB_PATH_def)
  have b: "fetch_tables users_db = Inr [text_of ''users'']"
    by (simp add: fetch_tables_def users_db_def text_of_def)
  have c: "\<forall>n \<in> set [text_of ''users'']. execute users_db (select_all_sql n) = Inr (contents users_db n)"
    by (simp add: users_db_def select_all_sql_def text_of_def)
  have d: "\<forall>n \<in> set [text_of ''users'']. text_encodable utf8_runtime n"
    by (simp add: text_encodable_def encodable_def text_of_def)
  have e: "\<forall>n \<in> set [text_of ''users'']. \<forall>r \<in> set (contents users_db n).
      text_encodable utf8_runtime (repr_row utf8_runtime r)"
    by (simp add: users_db_def users_rows_def text_encodable_def encodable_def repr_defs char_defs)
  have f: "contents users_db (text_of ''users'') =
     [[SInt 1, SText (text_of ''alice'')], [SInt 2, SText (text_of ''bob'')]]"
    by (simp add: users_db_def users_rows_def)
  from dump_output_when_nothing_raises[where connect = users_connect and db = users_db
      and names = "[text_of ''users'']" and rt = utf8_runtime, OF a b c d e] a b c f
  show ?thesis
    by (simp add: claimed_output_def out_line_def users_rows_def repr_defs char_defs)
qed

text \<open>
  Counterexample to C2 as stated (for every database), in three databases. With the
  tables \<open>order\<close> and \<open>users\<close> the output stops after the content header of
  \<open>order\<close>; whatever rows the tables hold, it is not the output described. With the
  tables \<open>a\<close>, \<open>b\<close> and \<open>a, b\<close> no statement raises, and under the header of
  \<open>a, b\<close> the output has the row (1, 2) of the join, not the row (3,) the table holds.
  With the table \<open>t\<close> and an ASCII standard output the content query returns the rows
  of the table and the output stops after the row (1,).
\<close>

theorem dump_not_as_described_counterexample:
  "\<not> (\<exists>rows_of. stdout (dbprint utf8_runtime order_connect) =
        claimed_output utf8_runtime [text_of ''order'', text_of ''users''] rows_of) \<and>
   fetch_tables join_db = Inr [text_of ''a'', text_of ''b'', text_of ''a, b''] \<and>
   uncaught (dbprint utf8_runtime join_connect) = None \<and>
   stdout (dbprint utf8_runtime join_connect) \<noteq>
     claimed_output utf8_runtime [text_of ''a'', text_of ''b'', text_of ''a, b''] (contents join_db) \<and>
   fetch_tables accent_db = Inr [text_of ''t''] \<and>
   execute accent_db (select_all_sql (text_of ''t'')) = Inr (contents accent_db (text_of ''t'')) \<and>
   stdout (dbprint ascii_runtime accent_connect) \<noteq>
     claimed_output ascii_runtime [text_of ''t''] (contents accent_db)"
proof -
  have 1: "\<not> (\<exists>rows_of. stdout (dbprint utf8_runtime order_connect) =
        claimed_output utf8_runtime [text_of ''order'', text_of ''users''] rows_of)"
    by (simp add: order_connect_def order_db_def utf8_runtime_def run_defs text_of_def
        claimed_output_def out_line_def)
  have 2: "fetch_tables join_db = Inr [text_of ''a'', text_of ''b'', text_of ''a, b'']"
    by (simp add: fetch_tables_def join_db_def text_of_def)
  have 3: "uncaught (dbprint utf8_runtime join_connect) = None"
    by (simp add: join_connect_def join_db_def utf8_runtime_def run_defs repr_defs
        claimed_output_def out_line_def)
  have 4: "stdout (dbprint utf8_runtime join_connect) \<noteq>
     claimed_output utf8_runtime [text_of ''a'', text_of ''b'', text_of ''a, b''] (contents join_db)"
    by (simp add: join_connect_def join_db_def utf8_runtime_def run_defs repr_defs
        claimed_output_def out_line_def)
  have 5: "fetch_tables accent_db = Inr [text_of ''t'']"
    by (simp add: fetch_tables_def accent_db_def text_of_def)
  have 6: "execute accent_db (select_all_sql (text_of ''t'')) = Inr (contents accent_db (text_of ''t''))"
    by (simp add: accent_db_def select_all_sql_def text_of_def)
  have 7: "stdout (dbprint ascii_runtime accent_connect) \<noteq>
     claimed_output ascii_runtime [text_of ''t''] (contents accent_db)"
    by (simp add: accent_connect_def accent_db_def ascii_runtime_def run_defs repr_defs
        claimed_output_def out_line_def)
  from 1 2 3 4 5 6 7 show ?thesis by blast
qed

text \<open>
  C3. For every database whose schema catalog has no entry of type \<open>table\<close>, the
  output is the line \<open>Tables in the database:\<close> and nothing else, whatever the
  encoding of standard output; the run ends without error.
\<close>

theorem no_tables_only_header:
  assumes "connect DB_PATH = Inr db" and "sqlite_master db = Inr entries"
    and "\<forall>e \<in> set entries. fst e \<noteq> text_of ''table''"
  shows "dbprint rt connect =
    \<lparr>stdout = text_of ''Tables in the database:'' @ [10], conn = ConnClosed, uncaught = None\<rparr>"
proof -
  from assms(3) have "filter (\<lambda>e. fst e = text_of ''table'') entries = []"
    by (simp add: filter_empty_conv)
  with assms(2) have "fetch_tables db = Inr []"
    by (simp add: fetch_tables_def)
  with assms(1) show ?thesis
    by (simp add: dbprint_def py_print_def)
qed

text \<open>Witness for C3: a catalog with an index and a view, and no table.\<close>

theorem no_tables_only_header_witness:
  "tableless_connect DB_PATH = Inr tableless_db \<and>
   sqlite_master tableless_db =
     Inr [(text_of ''index'', text_of ''idx''), (text_of ''view'', text_of ''v'')] \<and>
   fst (text_of ''index'', text_of ''idx'') \<noteq> text_of ''table'' \<and>
   fst (text_of ''view'', text_of ''v'') \<noteq> text_of ''table'' \<and>
   dbprint ascii_runtime tableless_connect =
     \<lparr>stdout = text_of ''Tables in the database:'' @ [10], conn = ConnClosed, uncaught = None\<rparr>"
proof -
  have a: "tableless_connect DB_PATH = Inr tableless_db"
    by (simp add: tableless_connect_def)
  have b: "sqlite_master tableless_db =
     Inr [(text_of ''index'', text_of ''idx''), (text_of ''view'', text_of ''v'')]"
    by (simp add: tableless_db_def)
  have c: "\<forall>e \<in> set [(text_of ''index'', text_of ''idx''), (text_of ''view'', text_of ''v'')].
      fst e \<noteq> text_of ''table''"
    by (simp add: text_of_def)
  show ?thesis
    using a b c no_tables_only_header[where connect = tableless_connect and db = tableless_db
        and entries = "[(text_of ''index'', text_of ''idx''), (text_of ''view'', text_of ''v'')]"
        and rt = ascii_runtime]
    by (simp add: text_of_def)
qed

section \<open>Properties of the Line Counter\<close>

lemma count_files_append:
  "count_files c (xs @ ys) =
     (case count_files c xs of Inl e \<Rightarrow> Inl e | Inr c' \<Rightarrow> count_files c' ys)"
  by (induction xs arbitrary: c) (simp_all split: sum.splits)

lemma count_walk_flat:
  "count_walk c ws = count_files c (concat (map (\<lambda>w. snd (snd w)) ws))"
proof (induction ws arbitrary: c)
  case Nil
  show ?case by simp
next
  case (Cons w ws)
  obtain r ds fs where w: "w = (r, ds, fs)" by (cases w)
  show ?case using Cons.IH by (simp add: w count_files_append split: sum.splits)
qed

lemma concat_map_concat_map:
  "concat (map g (concat (map h cs))) = concat (map (\<lambda>c. concat (map g (h c))) cs)"
  by (induction cs) simp_all

lemma all_files_Dir:
  "all_files path (Dir n cs) =
     concat (map node_files cs) @
     concat (map (\<lambda>c. all_files (os_path_join path (node_name c)) c) cs)"
  by (simp add: all_files_def concat_map_concat_map)

lemma mset_all_files: "mset (all_files path t) = mset (files_below t)"
proof (induction t arbitrary: path)
  case (Dir n cs)
  have "(\<Sum>c\<leftarrow>cs. mset (all_files (os_path_join path (node_name c)) c))
      = (\<Sum>c\<leftarrow>cs. mset (files_below c))"
    using Dir.IH by (intro arg_cong[where f=sum_list] map_cong) simp_all
  then show ?case
    by (simp add: all_files_Dir mset_concat comp_def sum_list_addf)
qed (simp_all add: all_files_def)

lemma set_all_files: "set (all_files path t) = set (files_below t)"
  using mset_all_files[of path t] by (rule mset_eq_setD)

lemma count_files_ok:
  "\<forall>f \<in> set fs. is_go f \<longrightarrow> \<not> isl (open_readlines (snd f)) \<Longrightarrow>
   count_files c fs =
     Inr \<lparr>total_lines = total_lines c + sum_list (map (\<lambda>f. file_lines (snd f)) (filter is_go fs)),
          go_files_count = go_files_count c + int (length (filter is_go fs))\<rparr>"
proof (induction fs arbitrary: c)
  case Nil
  show ?case by simp
next
  case (Cons f fs)
  show ?case
  proof (cases "is_go f")
    case False
    then have "count_file c f = Inr c" by (simp add: count_file_def is_go_def)
    with False Cons show ?thesis by simp
  next
    case True
    with Cons.prems obtain ls where ls: "open_readlines (snd f) = Inr ls"
      by (cases "open_readlines (snd f)") auto
    with True have "count_file c f =
        Inr \<lparr>total_lines = total_lines c + int (length ls), go_files_count = go_files_count c + 1\<rparr>"
      by (simp add: count_file_def is_go_def Let_def)
    with True ls Cons show ?thesis by (simp add: file_lines_def)
  qed
qed

lemma count_files_fail:
  "f \<in> set fs \<Longrightarrow> is_go f \<Longrightarrow> isl (open_readlines (snd f)) \<Longrightarrow> isl (count_files c fs)"
proof (induction fs arbitrary: c)
  case Nil
  then show ?case by simp
next
  case (Cons g fs)
  show ?case
  proof (cases "count_file c g")
    case (Inl e)
    then show ?thesis by simp
  next
    case (Inr c')
    with Cons.prems have "f \<noteq> g"
      by (auto simp: count_file_def is_go_def Let_def split: sum.splits)
    with Cons Inr show ?thesis by simp
  qed
qed

lemma count_file_mono:
  "count_file c f = Inr c' \<Longrightarrow> counters_le c c'"
  by (auto simp: count_file_def counters_le_def Let_def split: if_splits sum.splits)

lemma length_split_lines:
  "cur = [] \<or> last cur \<noteq> 10 \<Longrightarrow>
   length (split_lines cur u) =
     count_list u 10 + (if cur @ u \<noteq> [] \<and> last (cur @ u) \<noteq> 10 then 1 else 0)"
proof (induction u arbitrary: cur)
  case Nil
  then show ?case by auto
next
  case (Cons c cs)
  show ?case
  proof (cases "c = 10")
    case True
    then show ?thesis using Cons.IH[of "[]"] by simp
  next
    case False
    then show ?thesis using Cons.IH[of "cur @ [c]"] by simp
  qed
qed

lemma count_crlf_Cons:
  "count_crlf (c # cs) = (if c = 13 \<and> cs \<noteq> [] \<and> hd cs = 10 then 1 else 0) + count_crlf cs"
  by (cases cs) auto

lemma count_translate:
  "count_list (translate_newlines t) 10 + count_crlf t = count_list t 10 + count_list t 13"
proof (induction t rule: translate_newlines.induct)
  case 1
  show ?case by simp
next
  case (2 c)
  show ?case by simp
next
  case (3 c d cs)
  consider (crlf) "c = 13" "d = 10" | (cr) "c = 13" "d \<noteq> 10" | (other) "c \<noteq> 13"
    by blast
  then show ?case
  proof cases
    case crlf
    with "3.IH"(1) have "count_list (translate_newlines cs) 10 + count_crlf cs =
        count_list cs 10 + count_list cs 13"
      by simp
    moreover have "count_crlf (d # cs) = count_crlf cs"
      using crlf by (simp add: count_crlf_Cons)
    ultimately show ?thesis using crlf by simp
  next
    case cr
    with "3.IH"(2) have "count_list (translate_newlines (d # cs)) 10 + count_crlf (d # cs) =
        count_list (d # cs) 10 + count_list (d # cs) 13"
      by simp
    then show ?thesis using cr by (auto split: if_splits)
  next
    case other
    with "3.IH"(3) have "count_list (translate_newlines (d # cs)) 10 + count_crlf (d # cs) =
        count_list (d # cs) 10 + count_list (d # cs) 13"
      by simp
    then show ?thesis using other by (auto split: if_splits)
  qed
qed

lemma translate_Nil_iff: "translate_newlines t = [] \<longleftrightarrow> t = []"
  by (induction t rule: translate_newlines.induct) auto

lemma last_translate:
  "t \<noteq> [] \<Longrightarrow> last (translate_newlines t) = 10 \<longleftrightarrow> last t = 10 \<or> last t = 13"
  by (induction t rule: translate_newlines.induct) (auto simp: translate_Nil_iff)

lemma length_text_lines:
  "length (split_lines [] (translate_newlines t)) = spec_line_count t"
proof -
  have "count_list (translate_newlines t) 10 = count_list t 10 + count_list t 13 - count_crlf t"
    using count_translate[of t] by simp
  then show ?thesis
    using length_split_lines[of "[]" "translate_newlines t"] last_translate[of t]
    by (auto simp: spec_line_count_def translate_Nil_iff)
qed

lemma endswith_iff: "endswith s suffix \<longleftrightarrow> (\<exists>p. s = p @ suffix)"
proof
  assume "endswith s suffix"
  then have "s = take (length s - length suffix) s @ suffix"
    by (metis append_take_drop_id endswith_def)
  then show "\<exists>p. s = p @ suffix" ..
next
  assume "\<exists>p. s = p @ suffix"
  then show "endswith s suffix" by (auto simp: endswith_def)
qed

lemma count_go_lines_flat:
  "count_go_lines directory tree =
     (case count_files \<lparr>total_lines = 0, go_files_count = 0\<rparr> (all_files directory tree) of
        Inl e \<Rightarrow> Inl e
      | Inr c \<Rightarrow> Inr (go_files_count c, total_lines c))"
  by (simp add: count_go_lines_def count_walk_flat all_files_def)

lemma count_go_lines_ok:
  assumes "\<forall>f \<in> set (files_below tree). is_go f \<longrightarrow> \<not> isl (open_readlines (snd f))"
  shows "count_go_lines directory tree =
     Inr (int (size (filter_mset is_go (mset (files_below tree)))),
          sum_mset (image_mset (\<lambda>f. file_lines (snd f)) (filter_mset is_go (mset (files_below tree)))))"
proof -
  let ?fs = "all_files directory tree"
  from assms have "\<forall>f \<in> set ?fs. is_go f \<longrightarrow> \<not> isl (open_readlines (snd f))"
    by (simp add: set_all_files)
  from count_files_ok[OF this, of "\<lparr>total_lines = 0, go_files_count = 0\<rparr>"]
  have "count_go_lines directory tree =
      Inr (int (length (filter is_go ?fs)), sum_list (map (\<lambda>f. file_lines (snd f)) (filter is_go ?fs)))"
    by (simp add: count_go_lines_flat)
  moreover have "length (filter is_go ?fs) = size (filter_mset is_go (mset ?fs))"
    by (simp flip: mset_filter)
  moreover have "sum_list (map (\<lambda>f. file_lines (snd f)) (filter is_go ?fs)) =
      sum_mset (image_mset (\<lambda>f. file_lines (snd f)) (filter_mset is_go (mset ?fs)))"
    by (simp flip: mset_filter mset_map add: sum_mset_sum_list)
  ultimately show ?thesis by (simp add: mset_all_files)
qed

lemma count_go_lines_fail:
  assumes "f \<in> set (files_below tree)" and "is_go f" and "isl (open_readlines (snd f))"
  shows "isl (count_go_lines directory tree)"
proof -
  from assms(1) have "f \<in> set (all_files directory tree)" by (simp add: set_all_files)
  from count_files_fail[OF this assms(2,3), of "\<lparr>total_lines = 0, go_files_count = 0\<rparr>"]
  show ?thesis
    by (cases "count_files \<lparr>total_lines = 0, go_files_count = 0\<rparr> (all_files directory tree)")
      (simp_all add: count_go_lines_flat)
qed

lemma translate_newlines_Cons:
  "c \<noteq> 13 \<Longrightarrow> translate_newlines (c # t) = c # translate_newlines t"
  by (cases t) simp_all

lemma x_lines_decode:
  "utf8_decode (map of_char (concat (replicate n [CHR ''x'', LF]))) =
     Some (concat (replicate n [120, 10]))"
  by (induction n) (simp_all add: char_defs)

lemma x_lines_translate:
  "translate_newlines (concat (replicate n [120, 10])) = concat (replicate n [120, 10])"
  by (induction n) (simp_all add: translate_newlines_Cons)

lemma x_lines_split:
  "length (split_lines [] (concat (replicate n [120, 10]))) = n"
  by (induction n) simp_all

lemma x_lines_file_lines:
  "file_lines (Bytes (concat (replicate n [CHR ''x'', LF]))) = int n"
  by (simp add: file_lines_def open_readlines_def readlines_def x_lines_decode
      x_lines_translate x_lines_split)

lemma counters_le_refl: "counters_le c c"
  by (simp add: counters_le_def)

lemma counters_le_trans: "counters_le a b \<Longrightarrow> counters_le b c \<Longrightarrow> counters_le a c"
  by (auto simp: counters_le_def)

lemma count_trace_ge: "x \<in> set (count_trace c fs) \<Longrightarrow> counters_le c x"
proof (induction fs arbitrary: c)
  case Nil
  then show ?case by (simp add: counters_le_refl)
next
  case (Cons f fs)
  show ?case
  proof (cases "count_file c f")
    case (Inl e)
    with Cons.prems show ?thesis by (simp add: counters_le_refl)
  next
    case (Inr c')
    with Cons.prems have "x = c \<or> x \<in> set (count_trace c' fs)" by simp
    then show ?thesis
    proof
      assume "x = c"
      then show ?thesis by (simp add: counters_le_refl)
    next
      assume "x \<in> set (count_trace c' fs)"
      then have "counters_le c' x" by (rule Cons.IH)
      with count_file_mono[OF Inr] show ?thesis by (rule counters_le_trans)
    qed
  qed
qed

lemma count_trace_sorted: "sorted_wrt counters_le (count_trace c fs)"
proof (induction fs arbitrary: c)
  case Nil
  show ?case by simp
next
  case (Cons f fs)
  show ?case
  proof (cases "count_file c f")
    case (Inl e)
    then show ?thesis by simp
  next
    case (Inr c')
    have "\<forall>x \<in> set (count_trace c' fs). counters_le c x"
      using count_trace_ge count_file_mono[OF Inr] counters_le_trans by blast
    with Inr Cons.IH[of c'] show ?thesis by simp
  qed
qed

lemma count_trace_hd: "hd (count_trace c fs) = c"
  by (cases fs) simp_all

lemma count_trace_last: "count_files c fs = Inr c' \<Longrightarrow> last (count_trace c fs) = c'"
proof (induction fs arbitrary: c)
  case Nil
  then show ?case by simp
next
  case (Cons f fs)
  then obtain c1 where c1: "count_file c f = Inr c1" "count_files c1 fs = Inr c'"
    by (auto split: sum.splits)
  from Cons.IH[OF c1(2)] c1(1) show ?case
    by (cases fs) (auto split: sum.splits)
qed

lemma count_trace_length:
  "count_files c fs = Inr c' \<Longrightarrow> length (count_trace c fs) = Suc (length fs)"
  by (induction fs arbitrary: c) (auto split: sum.splits)

subsection \<open>Claims about the Line Counter\<close>

text \<open>
  C4. For every file whose name ends in \<open>.go\<close>, that can be opened and whose bytes
  decode as UTF-8, the step of the loop for that file adds one to the file counter and
  adds to the line total exactly the number of lines of the decoded text: one for each
  line-terminator sequence, one more for text after the last terminator, and none for
  the empty file.
\<close>

theorem go_file_contributes_its_line_count:
  assumes "endswith name ''.go''" and "utf8_decode (map of_char bytes) = Some text"
  shows "count_file c (name, Bytes bytes) =
      Inr \<lparr>total_lines = total_lines c + int (spec_line_count text),
           go_files_count = go_files_count c + 1\<rparr> \<and>
    spec_line_count [] = 0"
  using assms
  by (simp add: count_file_def open_readlines_def readlines_def length_text_lines Let_def
      spec_line_count_def)

text \<open>
  Witness for C4: a file \<open>m.go\<close> of two lines, the first ended by carriage return and
  line feed, the second not terminated.
\<close>

theorem go_file_contributes_its_line_count_witness:
  "endswith ''m.go'' ''.go'' \<and>
   utf8_decode (map of_char [CHR ''a'', CR, LF, CHR ''b'']) = Some [97, 13, 10, 98] \<and>
   count_file \<lparr>total_lines = 0, go_files_count = 0\<rparr> (''m.go'', Bytes [CHR ''a'', CR, LF, CHR ''b'']) =
     Inr \<lparr>total_lines = 2, go_files_count = 1\<rparr>"
proof -
  have a: "endswith ''m.go'' ''.go''" by (simp add: endswith_def)
  have b: "utf8_decode (map of_char [CHR ''a'', CR, LF, CHR ''b'']) = Some [97, 13, 10, 98]"
    by (simp add: char_defs)
  show ?thesis
    using a b go_file_contributes_its_line_count[OF a b, of "\<lparr>total_lines = 0, go_files_count = 0\<rparr>"]
    by (simp add: spec_line_count_def)
qed

text \<open>
  C5. For every directory tree that contains no file whose name ends in \<open>.go\<close>,
  \<open>count_go_lines\<close> returns the pair (0, 0).
\<close>

theorem no_go_files_gives_zero:
  assumes "\<forall>f \<in> set (files_below tree). \<not> endswith (fst f) ''.go''"
  shows "count_go_lines directory tree = Inr (0, 0)"
proof -
  from assms have e: "filter_mset is_go (mset (files_below tree)) = {#}"
    by (auto simp: is_go_def)
  from assms have "\<forall>f \<in> set (files_below tree). is_go f \<longrightarrow> \<not> isl (open_readlines (snd f))"
    by (simp add: is_go_def)
  from count_go_lines_ok[OF this, of directory] show ?thesis
    unfolding e by simp
qed

text \<open>
  Witness for C5: a tree with files \<open>README.md\<close>, \<open>main.GO\<close> and \<open>x.Go\<close>, a
  directory named \<open>vendor.go\<close> and a directory that is not entered.
\<close>

theorem no_go_files_gives_zero_witness:
  "list_all (\<lambda>f. \<not> endswith (fst f) ''.go'') (files_below no_go_tree) \<and>
   count_go_lines ''.'' no_go_tree = Inr (0, 0)"
proof -
  have a: "list_all (\<lambda>f. \<not> endswith (fst f) ''.go'') (files_below no_go_tree)"
    by (simp add: no_go_tree_def endswith_def)
  then have "\<forall>f \<in> set (files_below no_go_tree). \<not> endswith (fst f) ''.go''"
    by (simp add: list_all_iff)
  from no_go_files_gives_zero[OF this] a show ?thesis by simp
qed

text \<open>
  C6. For every directory tree, of any shape and depth, whose files are exactly \<open>a.go\<close>
  with 3 lines, \<open>b.go\<close> with 5 lines and \<open>c.txt\<close>, \<open>count_go_lines\<close> returns (2, 8)
  and the program prints \<open>Total Go files: 2\<close> and \<open>Total lines of Go code: 8\<close>.
  Nothing is assumed of what opening \<open>c.txt\<close> gives (100 lines, or an error): the file
  is skipped without being read.
\<close>

theorem scenario_counts_two_files_eight_lines:
  assumes "mset (files_below tree) = {#(''a.go'', da), (''b.go'', db), (''c.txt'', dc)#}"
    and "open_readlines da = Inr la" and "length la = 3"
    and "open_readlines db = Inr lb" and "length lb = 5"
  shows "count_go_lines directory tree = Inr (2, 8) \<and>
    linecount_main tree =
      \<lparr>lc_stdout = print ''Total Go files: 2'' @ print ''Total lines of Go code: 8'',
       lc_uncaught = None\<rparr>"
proof -
  have go: "is_go (''a.go'', da)" "is_go (''b.go'', db)" "\<not> is_go (''c.txt'', dc)"
    by (simp_all add: is_go_def endswith_def)
  have set_eq: "set (files_below tree) = {(''a.go'', da), (''b.go'', db), (''c.txt'', dc)}"
    using arg_cong[OF assms(1), of set_mset] by simp
  have readable: "\<forall>f \<in> set (files_below tree). is_go f \<longrightarrow> \<not> isl (open_readlines (snd f))"
    using go assms(2,4) by (simp add: set_eq)
  have lines: "file_lines da = 3" "file_lines db = 5"
    using assms(2-5) by (simp_all add: file_lines_def)
  have r: "count_go_lines d tree = Inr (2, 8)" for d
    using count_go_lines_ok[OF readable, of d] go lines by (simp add: assms(1))
  have "str_int 2 = ''2''" "str_int 8 = ''8''"
    by (simp_all add: str_int_def str_nat.simps digit_char_def)
  with r show ?thesis by (simp add: linecount_main_def)
qed

text \<open>
  Witness for C6: \<open>c.txt\<close> with 100 lines and \<open>b.go\<close> in the root, \<open>a.go\<close> one
  directory down.
\<close>

theorem scenario_counts_two_files_eight_lines_witness:
  "mset (files_below scenario_tree) = {#(''a.go'', a_go), (''b.go'', b_go), (''c.txt'', c_txt)#} \<and>
   file_lines a_go = 3 \<and> file_lines b_go = 5 \<and> file_lines c_txt = 100 \<and>
   count_go_lines ''.'' scenario_tree = Inr (2, 8) \<and>
   lc_stdout (linecount_main scenario_tree) =
     ''Total Go files: 2'' @ [LF] @ ''Total lines of Go code: 8'' @ [LF]"
proof -
  have m: "mset (files_below scenario_tree) =
      {#(''a.go'', a_go), (''b.go'', b_go), (''c.txt'', c_txt)#}"
    by (simp add: scenario_tree_def)
  obtain la where la: "open_readlines a_go = Inr la" "length la = 3"
    by (simp add: a_go_def open_readlines_def readlines_def char_defs)
  obtain lb where lb: "open_readlines b_go = Inr lb" "length lb = 5"
    by (simp add: b_go_def open_readlines_def readlines_def char_defs)
  have c: "file_lines c_txt = 100"
    using x_lines_file_lines[of 100] by (simp add: c_txt_def)
  from la lb have ab: "file_lines a_go = 3" "file_lines b_go = 5"
    by (simp_all add: file_lines_def)
  from scenario_counts_two_files_eight_lines[OF m la lb, of "''.''"] m ab c
  show ?thesis by (simp add: print_def)
qed

text \<open>
  C7. The counters only grow. The sequence of their values, taken before the first file
  and after each file of the traversal, starts at (0, 0), and every value in it is at
  most every later one, in the file counter and in the line total; when
  \<open>count_go_lines\<close> returns, the sequence has one value per file after the first and
  the pair returned is its last value.
\<close>

theorem counters_never_decrease:
  "hd (count_trace \<lparr>total_lines = 0, go_files_count = 0\<rparr> (all_files directory tree)) =
     \<lparr>total_lines = 0, go_files_count = 0\<rparr> \<and>
   sorted_wrt counters_le
     (count_trace \<lparr>total_lines = 0, go_files_count = 0\<rparr> (all_files directory tree)) \<and>
   (\<forall>n l. count_go_lines directory tree = Inr (n, l) \<longrightarrow>
      length (count_trace \<lparr>total_lines = 0, go_files_count = 0\<rparr> (all_files directory tree)) =
        Suc (length (all_files directory tree)) \<and>
      last (count_trace \<lparr>total_lines = 0, go_files_count = 0\<rparr> (all_files directory tree)) =
        \<lparr>total_lines = l, go_files_count = n\<rparr>)"
proof -
  let ?z = "\<lparr>total_lines = 0, go_files_count = 0\<rparr>"
  let ?fs = "all_files directory tree"
  have "length (count_trace ?z ?fs) = Suc (length ?fs) \<and>
        last (count_trace ?z ?fs) = \<lparr>total_lines = l, go_files_count = n\<rparr>"
    if "count_go_lines directory tree = Inr (n, l)" for n l
  proof -
    from that obtain c where c: "count_files ?z ?fs = Inr c"
      and nl: "n = go_files_count c" "l = total_lines c"
      by (auto simp: count_go_lines_flat split: sum.splits)
    from count_trace_last[OF c] count_trace_length[OF c] nl show ?thesis by simp
  qed
  then show ?thesis
    using count_trace_hd count_trace_sorted by blast
qed

text \<open>
  Witness for C7: on the scenario tree the counters go (0, 0), (0, 0) after \<open>c.txt\<close>,
  (1 file, 5 lines) after \<open>b.go\<close>, (2 files, 8 lines) after \<open>a.go\<close>.
\<close>

theorem counters_never_decrease_witness:
  "count_go_lines ''.'' scenario_tree = Inr (2, 8) \<and>
   count_trace \<lparr>total_lines = 0, go_files_count = 0\<rparr> (all_files ''.'' scenario_tree) =
     [\<lparr>total_lines = 0, go_files_count = 0\<rparr>, \<lparr>total_lines = 0, go_files_count = 0\<rparr>,
      \<lparr>total_lines = 5, go_files_count = 1\<rparr>, \<lparr>total_lines = 8, go_files_count = 2\<rparr>] \<and>
   sorted_wrt counters_le
     (count_trace \<lparr>total_lines = 0, go_files_count = 0\<rparr> (all_files ''.'' scenario_tree))"
proof -
  have t: "count_trace \<lparr>total_lines = 0, go_files_count = 0\<rparr> (all_files ''.'' scenario_tree) =
     [\<lparr>total_lines = 0, go_files_count = 0\<rparr>, \<lparr>total_lines = 0, go_files_count = 0\<rparr>,
      \<lparr>total_lines = 5, go_files_count = 1\<rparr>, \<lparr>total_lines = 8, go_files_count = 2\<rparr>]"
    by (simp add: all_files_def scenario_tree_def count_file_def endswith_def a_go_def b_go_def
        open_readlines_def readlines_def char_defs Let_def)
  have r: "count_go_lines ''.'' scenario_tree = Inr (2, 8)"
    by (simp add: count_go_lines_def scenario_tree_def count_file_def endswith_def a_go_def b_go_def
        open_readlines_def readlines_def char_defs Let_def)
  from counters_never_decrease[of "''.''" scenario_tree] t r show ?thesis by simp
qed

text \<open>
  C9. When a file whose name ends in \<open>.go\<close> is met that cannot be opened, or whose
  bytes are not valid UTF-8, \<open>count_go_lines\<close> returns no pair: the error leaves the
  function, and the program ends with that error uncaught and nothing printed.
\<close>

theorem unreadable_go_file_aborts_run:
  assumes "f \<in> set (files_below tree)" and "endswith (fst f) ''.go''"
    and "(\<exists>msg. snd f = Unopenable msg) \<or>
         (\<exists>bytes. snd f = Bytes bytes \<and> utf8_decode (map of_char bytes) = None)"
  shows "(\<exists>e. count_go_lines directory tree = Inl e) \<and>
         (\<exists>e. linecount_main tree = \<lparr>lc_stdout = [], lc_uncaught = Some e\<rparr>)"
proof -
  from assms(3) have "isl (open_readlines (snd f))"
    by (auto simp: open_readlines_def readlines_def)
  with assms(1,2) have "isl (count_go_lines d tree)" for d
    by (intro count_go_lines_fail[of f]) (simp_all add: is_go_def)
  then have *: "\<exists>e. count_go_lines d tree = Inl e" for d
    using isl_def by blast
  from *[of "''.''"] have "\<exists>e. linecount_main tree = \<lparr>lc_stdout = [], lc_uncaught = Some e\<rparr>"
    by (auto simp: linecount_main_def)
  with * show ?thesis by blast
qed

text \<open>
  Witness for C9: \<open>bad.go\<close>, one byte 0xFF, met after a readable \<open>a.go\<close>.
\<close>

theorem unreadable_go_file_aborts_run_witness:
  "(''bad.go'', Bytes [CHR 0xFF]) \<in> set (files_below bad_utf8_tree) \<and>
   endswith ''bad.go'' ''.go'' \<and>
   utf8_decode (map of_char [CHR 0xFF]) = None \<and>
   count_go_lines ''.'' bad_utf8_tree = Inl UnicodeDecodeError \<and>
   linecount_main bad_utf8_tree = \<lparr>lc_stdout = [], lc_uncaught = Some UnicodeDecodeError\<rparr>"
proof -
  have a: "(''bad.go'', Bytes [CHR 0xFF]) \<in> set (files_below bad_utf8_tree)"
    by (simp add: bad_utf8_tree_def)
  have b: "endswith (fst (''bad.go'', Bytes [CHR 0xFF])) ''.go''"
    by (simp add: endswith_def)
  have c: "utf8_decode (map of_char [CHR 0xFF]) = None"
    by simp
  then have c': "(\<exists>msg. snd (''bad.go'', Bytes [CHR 0xFF]) = Unopenable msg) \<or>
      (\<exists>bytes. snd (''bad.go'', Bytes [CHR 0xFF]) = Bytes bytes \<and>
         utf8_decode (map of_char bytes) = None)"
    by simp
  have r: "count_go_lines ''.'' bad_utf8_tree = Inl UnicodeDecodeError"
    by (simp add: count_go_lines_def bad_utf8_tree_def count_file_def endswith_def a_go_def
        open_readlines_def readlines_def char_defs Let_def)
  from unreadable_go_file_aborts_run[OF a b c', of "''.''"] a b c r
  show ?thesis by (simp add: linecount_main_def)
qed

text \<open>
  C10. The filter is a case-sensitive test of the end of the file name: a name passes
  exactly when it is some text followed by \<open>.go\<close>, so \<open>.go\<close> itself passes and
  names ending in \<open>.GO\<close> or \<open>.Go\<close> do not. A file that does not pass leaves the
  counters as they are, whatever opening it would give; a file that passes and is read
  adds one to the file counter. The count returned is the number of files with such a
  name: directory names are never tested.
\<close>

theorem extension_filter_is_exact_suffix:
  "(endswith name ''.go'' \<longleftrightarrow> (\<exists>p. name = p @ ''.go'')) \<and>
   endswith ''.go'' ''.go'' \<and>
   \<not> endswith (p @ ''.GO'') ''.go'' \<and> \<not> endswith (p @ ''.Go'') ''.go'' \<and>
   (\<not> endswith name ''.go'' \<longrightarrow> count_file c (name, d) = Inr c) \<and>
   (endswith name ''.go'' \<longrightarrow>
      (\<forall>c'. count_file c (name, d) = Inr c' \<longrightarrow> go_files_count c' = go_files_count c + 1)) \<and>
   (\<forall>n l. count_go_lines directory tree = Inr (n, l) \<longrightarrow>
      n = int (length (filter (\<lambda>f. endswith (fst f) ''.go'') (files_below tree))))"
proof -
  have cnt: "n = int (length (filter (\<lambda>f. endswith (fst f) ''.go'') (files_below tree)))"
    if r: "count_go_lines directory tree = Inr (n, l)" for n l
  proof -
    have "\<forall>f \<in> set (files_below tree). is_go f \<longrightarrow> \<not> isl (open_readlines (snd f))"
    proof (intro ballI impI)
      fix f assume "f \<in> set (files_below tree)" "is_go f"
      show "\<not> isl (open_readlines (snd f))"
      proof
        assume "isl (open_readlines (snd f))"
        from count_go_lines_fail[OF \<open>f \<in> set (files_below tree)\<close> \<open>is_go f\<close> this, of directory] r
        show False by simp
      qed
    qed
    from count_go_lines_ok[OF this, of directory] r
    have "n = int (size (filter_mset is_go (mset (files_below tree))))" by simp
    also have "size (filter_mset is_go (mset (files_below tree))) = length (filter is_go (files_below tree))"
      by (simp flip: mset_filter)
    finally show ?thesis by (simp add: is_go_def[abs_def])
  qed
  have "\<not> endswith name ''.go'' \<longrightarrow> count_file c (name, d) = Inr c"
    by (simp add: count_file_def)
  moreover have "endswith name ''.go'' \<longrightarrow>
      (\<forall>c'. count_file c (name, d) = Inr c' \<longrightarrow> go_files_count c' = go_files_count c + 1)"
    by (auto simp: count_file_def Let_def split: sum.splits)
  moreover have "endswith ''.go'' ''.go''" "\<not> endswith (p @ ''.GO'') ''.go''"
    "\<not> endswith (p @ ''.Go'') ''.go''"
    by (simp_all add: endswith_def)
  ultimately show ?thesis using cnt endswith_iff[of name "''.go''"] by blast
qed

text \<open>
  Witness for C10: in a directory named \<open>dir.go\<close>, the files \<open>.go\<close> and \<open>B.GO\<close>,
  and beside it \<open>b.Go\<close>; one file is counted.
\<close>

theorem extension_filter_is_exact_suffix_witness:
  "files_below dotgo_tree = [(''.go'', a_go), (''B.GO'', b_go), (''b.Go'', b_go)] \<and>
   count_go_lines ''.'' dotgo_tree = Inr (1, 3) \<and>
   count_file \<lparr>total_lines = 0, go_files_count = 0\<rparr> (''B.GO'', b_go) =
     Inr \<lparr>total_lines = 0, go_files_count = 0\<rparr> \<and>
   count_file \<lparr>total_lines = 0, go_files_count = 0\<rparr> (''.go'', a_go) =
     Inr \<lparr>total_lines = 3, go_files_count = 1\<rparr>"
proof -
  have a: "files_below dotgo_tree = [(''.go'', a_go), (''B.GO'', b_go), (''b.Go'', b_go)]"
    by (simp add: dotgo_tree_def)
  have r: "count_go_lines ''.'' dotgo_tree = Inr (1, 3)"
    by (simp add: count_go_lines_def dotgo_tree_def count_file_def endswith_def a_go_def
        open_readlines_def readlines_def char_defs Let_def)
  have g: "count_file \<lparr>total_lines = 0, go_files_count = 0\<rparr> (''.go'', a_go) =
     Inr \<lparr>total_lines = 3, go_files_count = 1\<rparr>"
    by (simp add: count_file_def endswith_def a_go_def open_readlines_def readlines_def
        char_defs Let_def)
  from extension_filter_is_exact_suffix[of "''B.GO''" "[]" "\<lparr>total_lines = 0, go_files_count = 0\<rparr>"
      b_go "''.''" dotgo_tree]
    extension_filter_is_exact_suffix[of "''.go''" "[]" "\<lparr>total_lines = 0, go_files_count = 0\<rparr>"
      a_go "''.''" dotgo_tree] a r g
  show ?thesis by (simp add: endswith_def)
qed

end
